theory Spec2Isabelle
  imports Main "HOL-Library.Word"
begin

unbundle bit_operations_syntax

section \<open>The polling serial transport of foxess\_modbus\<close>

text \<open>
  This theory embeds \<^verbatim>\<open>custom_components/foxess_modbus/client/protocol_pollserial.py\<close>:
  the class \<^verbatim>\<open>Serial\<close> with its methods \<^verbatim>\<open>read\<close> and \<^verbatim>\<open>write\<close>.
  Both methods talk to the operating system (\<^verbatim>\<open>select.poll\<close>, \<^verbatim>\<open>os.read\<close>,
  \<^verbatim>\<open>os.write\<close>, the monotonic clock). The operating system is an explicit state
  \<open>os_state\<close> that every call takes and returns; exceptions are values.
\<close>

subsection \<open>Values, exceptions and results\<close>

type_synonym descr = int
type_synonym byte = "8 word"
type_synonym bytes = "byte list"

text \<open>
  The exceptions that can travel through \<^verbatim>\<open>read\<close> and \<^verbatim>\<open>write\<close>. The three
  serial exceptions come from \<^verbatim>\<open>serial.serialutil\<close>, where
  \<^verbatim>\<open>class SerialException(IOError)\<close>, \<^verbatim>\<open>class SerialTimeoutException(SerialException)\<close> and
  \<^verbatim>\<open>class PortNotOpenError(SerialException)\<close> are declared; \<^verbatim>\<open>IOError\<close> is Python 3's
  \<^verbatim>\<open>OSError\<close>. \<open>OSError n msg\<close> is an error of the operating system itself with
  \<^verbatim>\<open>e.errno == n\<close> and \<^verbatim>\<open>str(e) == msg\<close>.
\<close>

datatype exn =
    PortNotOpenError
  | SerialException string
  | SerialTimeoutException string
  | OSError int string
  | TypeError

text \<open>\<^verbatim>\<open>isinstance(e, OSError)\<close>, by the class declarations above.\<close>

fun is_OSError :: "exn \<Rightarrow> bool" where
  "is_OSError PortNotOpenError = True"
| "is_OSError (SerialException msg) = True"
| "is_OSError (SerialTimeoutException msg) = True"
| "is_OSError (OSError n msg) = True"
| "is_OSError TypeError = False"

text \<open>
  \<^verbatim>\<open>e.errno\<close>: an \<^verbatim>\<open>OSError\<close> built from a single message argument, as the serial
  exceptions are, has \<^verbatim>\<open>errno\<close> \<^verbatim>\<open>None\<close>.
\<close>

fun errno_of :: "exn \<Rightarrow> int option" where
  "errno_of (OSError n msg) = Some n"
| "errno_of e = None"

text \<open>\<^verbatim>\<open>str(e)\<close>.\<close>

fun str_of :: "exn \<Rightarrow> string" where
  "str_of PortNotOpenError = ''Attempting to use a port that is not open''"
| "str_of (SerialException msg) = msg"
| "str_of (SerialTimeoutException msg) = msg"
| "str_of (OSError n msg) = msg"
| "str_of TypeError = ''unicode strings are not supported, please encode to bytes''"

text \<open>
  How a call ends: it returns a value, it raises, or it never returns (a readiness wait
  without timeout on which nothing ever becomes ready).
\<close>

datatype 'a outcome = Returns 'a | Raises exn | Blocks

subsection \<open>Constants of \<^verbatim>\<open>select\<close> and \<^verbatim>\<open>errno\<close> (Linux values)\<close>

definition POLLIN :: nat where "POLLIN = 1"
definition POLLOUT :: nat where "POLLOUT = 4"
definition POLLERR :: nat where "POLLERR = 8"
definition POLLHUP :: nat where "POLLHUP = 16"
definition POLLNVAL :: nat where "POLLNVAL = 32"

definition EINTR :: int where "EINTR = 4"
definition EAGAIN :: int where "EAGAIN = 11"
definition EWOULDBLOCK :: int where "EWOULDBLOCK = 11"
definition EALREADY :: int where "EALREADY = 114"
definition EINPROGRESS :: int where "EINPROGRESS = 115"

subsection \<open>The operating system\<close>

text \<open>
  Every system call is logged, with its arguments and its result.
\<close>

datatype syscall =
    Poll "nat option" "(descr \<times> nat) list"
  | Read descr nat bytes
  | Write descr bytes "exn + nat"

text \<open>
  \<^item> \<open>clock\<close>: the monotonic clock, in milliseconds (the unit of \<^verbatim>\<open>poll\<close>'s timeout;
    Python's float seconds are counted in whole milliseconds here).
  \<^item> \<open>timeline\<close>: the wake-ups still to come: after \<open>dt\<close> more milliseconds the
    descriptors listed have the condition bits given.
  \<^item> \<open>files f\<close>: what successive \<^verbatim>\<open>os.read\<close> calls on descriptor \<open>f\<close> find; for an
    abort pipe, the head is the signal that is pending.
  \<^item> \<open>write_script\<close>: how the device answers successive \<^verbatim>\<open>os.write\<close> calls: after
    \<open>dt\<close> milliseconds, it fails with \<open>(errno, str)\<close> or accepts up to \<open>k\<close> bytes.
    Once the script is used up the device accepts everything at once.
  \<^item> \<open>trace\<close>: the system calls made so far.

  Timeline and write script are finite. An operating system that answers without end (a
  device that stays ready for ever and never delivers a byte) is outside the model: every
  run of the model ends, or blocks in a wait without timeout.
\<close>

record os_state =
  clock :: nat
  timeline :: "(nat \<times> (descr \<times> nat) list) list"
  files :: "descr \<Rightarrow> bytes list"
  write_script :: "(nat \<times> ((int \<times> string) + nat)) list"
  trace :: "syscall list"

text \<open>
  \<^verbatim>\<open>os.read(f, n)\<close>: at most \<open>n\<close> bytes of what is available; the rest stays available.
\<close>

definition os_read :: "os_state \<Rightarrow> descr \<Rightarrow> nat \<Rightarrow> bytes \<times> os_state" where
  "os_read w f n =
     (case files w f of
        [] \<Rightarrow> ([], w\<lparr>trace := trace w @ [Read f n []]\<rparr>)
      | c # cs \<Rightarrow>
          (take n c,
           w\<lparr>files := (files w)(f := (if drop n c = [] then cs else drop n c # cs)),
             trace := trace w @ [Read f n (take n c)]\<rparr>))"

text \<open>
  \<^verbatim>\<open>os.write(f, d)\<close>: the number of bytes accepted, never more than \<^verbatim>\<open>len(d)\<close>, or an
  \<^verbatim>\<open>OSError\<close>.
\<close>

definition os_write :: "os_state \<Rightarrow> descr \<Rightarrow> bytes \<Rightarrow> (exn + nat) \<times> os_state" where
  "os_write w f d =
     (case write_script w of
        [] \<Rightarrow> (Inr (length d), w\<lparr>trace := trace w @ [Write f d (Inr (length d))]\<rparr>)
      | (dt, r) # rs \<Rightarrow>
          (let res = (case r of
                        Inl (n, msg) \<Rightarrow> Inl (OSError n msg)
                      | Inr k \<Rightarrow> Inr (min k (length d)))
           in (res, w\<lparr>clock := clock w + dt, write_script := rs,
                       trace := trace w @ [Write f d res]\<rparr>)))"

text \<open>
  \<^verbatim>\<open>poll.register(f, mask)\<close>: the poll object keeps its descriptors in registration
  order; registering a descriptor again replaces its mask.
\<close>

fun register :: "(descr \<times> nat) list \<Rightarrow> descr \<Rightarrow> nat \<Rightarrow> (descr \<times> nat) list" where
  "register [] f m = [(f, m)]"
| "register ((g, k) # ps) f m = (if g = f then (g, m) # ps else (g, k) # register ps f m)"

definition conds_of :: "(descr \<times> nat) list \<Rightarrow> descr \<Rightarrow> nat" where
  "conds_of cs f = (case map_of cs f of None \<Rightarrow> 0 | Some c \<Rightarrow> c)"

text \<open>
  What \<^verbatim>\<open>poll\<close> reports for the conditions \<open>cs\<close>: for each registered descriptor, in
  registration order, the condition bits that were asked for or that signal an error,
  when there are any.
\<close>

definition revents :: "(descr \<times> nat) list \<Rightarrow> (descr \<times> nat) list \<Rightarrow> (descr \<times> nat) list" where
  "revents reg cs =
     filter (\<lambda>(f, e). e \<noteq> 0)
       (map (\<lambda>(f, m). (f, conds_of cs f AND (m OR POLLERR OR POLLHUP OR POLLNVAL))) reg)"

text \<open>
  The wait itself: \<open>tmo\<close> is the time still allowed (\<open>None\<close>: no limit), \<open>el\<close> the time
  already waited. A wake-up with nothing to report for the registered descriptors does
  not end the wait. The result is the report, the time waited and the rest of the
  timeline; \<open>None\<close> when the wait never ends.
\<close>

fun poll_wait ::
  "(descr \<times> nat) list \<Rightarrow> nat option \<Rightarrow> nat \<Rightarrow> (nat \<times> (descr \<times> nat) list) list \<Rightarrow>
     ((descr \<times> nat) list \<times> nat \<times> (nat \<times> (descr \<times> nat) list) list) option" where
  "poll_wait reg tmo el [] =
     (case tmo of None \<Rightarrow> None | Some ms \<Rightarrow> Some ([], el + ms, []))"
| "poll_wait reg tmo el ((dt, cs) # rest) =
     (case tmo of
        Some ms \<Rightarrow>
          if ms < dt then Some ([], el + ms, (dt - ms, cs) # rest)
          else if revents reg cs \<noteq> [] then Some (revents reg cs, el + dt, rest)
          else poll_wait reg (Some (ms - dt)) (el + dt) rest
      | None \<Rightarrow>
          if revents reg cs \<noteq> [] then Some (revents reg cs, el + dt, rest)
          else poll_wait reg None (el + dt) rest)"

text \<open>\<^verbatim>\<open>poll.poll(tmo)\<close> on the poll object with registrations \<open>reg\<close>.\<close>

definition poll_poll ::
  "os_state \<Rightarrow> (descr \<times> nat) list \<Rightarrow> nat option \<Rightarrow> ((descr \<times> nat) list \<times> os_state) option" where
  "poll_poll w reg tmo =
     (case poll_wait reg tmo 0 (timeline w) of
        None \<Rightarrow> None
      | Some (events, el, rest) \<Rightarrow>
          Some (events, w\<lparr>clock := clock w + el, timeline := rest,
                           trace := trace w @ [Poll tmo events]\<rparr>))"

subsection \<open>\<^verbatim>\<open>serial.serialutil.Timeout\<close>\<close>

text \<open>
  The timeout object of pyserial, built at call entry from the configured duration
  (\<open>None\<close>: wait forever; \<open>0\<close>: non-blocking). Its clock-jump branch needs a clock that
  runs backwards, which \<open>clock\<close> never does, and is left out.
\<close>

record timeout_obj =
  is_infinite :: bool
  is_non_blocking :: bool
  duration :: "nat option"
  target_time :: "nat option"

definition Timeout :: "os_state \<Rightarrow> nat option \<Rightarrow> timeout_obj" where
  "Timeout w dur =
     \<lparr>is_infinite = (dur = None), is_non_blocking = (dur = Some 0), duration = dur,
      target_time = (case dur of None \<Rightarrow> None | Some d \<Rightarrow> Some (clock w + d))\<rparr>"

definition time_left :: "timeout_obj \<Rightarrow> os_state \<Rightarrow> nat option" where
  "time_left t w =
     (if is_non_blocking t then Some 0
      else if is_infinite t then None
      else (case target_time t of None \<Rightarrow> None | Some tt \<Rightarrow> Some (tt - clock w)))"

definition expired :: "timeout_obj \<Rightarrow> os_state \<Rightarrow> bool" where
  "expired t w =
     (target_time t \<noteq> None \<and> (case time_left t w of None \<Rightarrow> False | Some l \<Rightarrow> l \<le> 0))"

text \<open>
  \<^verbatim>\<open>None if timeout.is_infinite else int(timeout.time_left() * 1000)\<close>; the clock
  already counts milliseconds.
\<close>

definition poll_timeout :: "timeout_obj \<Rightarrow> os_state \<Rightarrow> nat option" where
  "poll_timeout t w = (if is_infinite t then None else time_left t w)"

subsection \<open>The class \<^verbatim>\<open>Serial\<close>\<close>

text \<open>
  The attributes of the port object that \<^verbatim>\<open>read\<close> and \<^verbatim>\<open>write\<close> use; \<open>timeout\<close>,
  \<open>write_timeout\<close> and \<open>inter_byte_timeout\<close> are \<^verbatim>\<open>self._timeout\<close>,
  \<^verbatim>\<open>self._write_timeout\<close> and \<^verbatim>\<open>self._inter_byte_timeout\<close>, in milliseconds. The two
  methods are \<open>Serial_read\<close> and \<open>Serial_write\<close> below.
\<close>

record serial =
  is_open :: bool
  fd :: descr
  pipe_abort_read_r :: descr
  pipe_abort_write_r :: descr
  timeout :: "nat option"
  write_timeout :: "nat option"
  inter_byte_timeout :: "nat option"

datatype PollResult = TIMEOUT | ABORT | READY

text \<open>
  The \<^verbatim>\<open>for fd, event in events\<close> loop, which \<^verbatim>\<open>read\<close> (lines 55 to 64) and
  \<^verbatim>\<open>write\<close> (lines 107 to 116) share word for word but for the abort pipe they name.
\<close>

fun scan_events ::
  "descr \<Rightarrow> descr \<Rightarrow> PollResult \<Rightarrow> (descr \<times> nat) list \<Rightarrow> os_state \<Rightarrow>
     (exn + PollResult) \<times> os_state" where
  "scan_events dev pipe result [] w = (Inr result, w)"
| "scan_events dev pipe result ((f, event) # events) w =
     (if f = pipe then (Inr ABORT, snd (os_read w pipe 1000))
      else if event AND (POLLERR OR POLLHUP OR POLLNVAL) \<noteq> 0
        then (Inl (SerialException ''device reports error (poll)''), w)
      else if f = dev then scan_events dev pipe READY events w
      else scan_events dev pipe result events w)"

text \<open>Python's truth value of \<^verbatim>\<open>self._inter_byte_timeout\<close>: neither \<^verbatim>\<open>None\<close> nor zero.\<close>

definition truthy :: "nat option \<Rightarrow> bool" where
  "truthy v = (case v of None \<Rightarrow> False | Some x \<Rightarrow> x \<noteq> 0)"

subsection \<open>\<^verbatim>\<open>Serial.read\<close>\<close>

text \<open>
  The \<^verbatim>\<open>while len(read) < size\<close> loop (lines 50 to 72). \<open>sz\<close> is \<^verbatim>\<open>size\<close>, \<open>rd\<close>
  the bytearray \<^verbatim>\<open>read\<close>, \<open>t\<close> the \<^verbatim>\<open>Timeout\<close> object and \<open>poll\<close> the registrations
  of the poll object.
\<close>

function read_loop ::
  "serial \<Rightarrow> timeout_obj \<Rightarrow> (descr \<times> nat) list \<Rightarrow> int \<Rightarrow> bytes \<Rightarrow> os_state \<Rightarrow>
     bytes outcome \<times> os_state" where
  "read_loop s t poll sz rd w =
     (if int (length rd) < sz then
        (case poll_poll w poll (poll_timeout t w) of
           None \<Rightarrow> (Blocks, w)
         | Some (events, w1) \<Rightarrow>
             (case scan_events (fd s) (pipe_abort_read_r s) TIMEOUT events w1 of
                (Inl e, w2) \<Rightarrow> (Raises e, w2)
              | (Inr result, w2) \<Rightarrow>
                  if result = READY then
                    (case os_read w2 (fd s) (nat (sz - int (length rd))) of
                       (buf, w3) \<Rightarrow>
                         if truthy (inter_byte_timeout s) \<and> buf = [] then (Returns (rd @ buf), w3)
                         else read_loop s t poll sz (rd @ buf) w3)
                  else if result \<in> {TIMEOUT, ABORT} \<or> expired t w2 then (Returns rd, w2)
                  else read_loop s t poll sz rd w2))
      else (Returns rd, w))"
  by pat_completeness auto

text \<open>The poll object that \<^verbatim>\<open>read\<close> builds (lines 46 to 48).\<close>

definition read_poll :: "serial \<Rightarrow> (descr \<times> nat) list" where
  "read_poll s =
     register (register [] (fd s) (POLLIN OR POLLERR OR POLLHUP OR POLLNVAL))
       (pipe_abort_read_r s) (POLLIN OR POLLERR OR POLLHUP OR POLLNVAL)"

definition Serial_read :: "serial \<Rightarrow> int \<Rightarrow> os_state \<Rightarrow> bytes outcome \<times> os_state" where
  "Serial_read s sz w =
     (if \<not> is_open s then (Raises PortNotOpenError, w)
      else
        (let t = Timeout w (timeout s);
             poll = read_poll s
         in read_loop s t poll sz [] w))"

subsection \<open>\<^verbatim>\<open>Serial.write\<close>\<close>

text \<open>
  How the body of the \<^verbatim>\<open>try\<close> statement ends: it falls through, it leaves the loop,
  it returns from \<^verbatim>\<open>write\<close>, it raises, or it never comes back from the wait.
\<close>

datatype flow = Next | Break | Return int | Exc exn | Blocked

text \<open>
  The body of the \<^verbatim>\<open>try\<close> statement (lines 92 to 121), with the values of
  \<^verbatim>\<open>tx_remaining\<close> and \<^verbatim>\<open>d\<close> it leaves behind.
\<close>

definition write_try ::
  "serial \<Rightarrow> timeout_obj \<Rightarrow> (descr \<times> nat) list \<Rightarrow> int \<Rightarrow> bytes \<Rightarrow> os_state \<Rightarrow>
     flow \<times> int \<times> bytes \<times> os_state" where
  "write_try s t poll tx_remaining d w =
     (case os_write w (fd s) d of
        (Inl e, w1) \<Rightarrow> (Exc e, tx_remaining, d, w1)
      | (Inr n, w1) \<Rightarrow>
          (let tx_remaining = tx_remaining - int n; d = drop n d in
           if is_non_blocking t then (Return (int n), tx_remaining, d, w1)
           else if tx_remaining = 0 then (Break, tx_remaining, d, w1)
           else
             (case poll_poll w1 poll (poll_timeout t w1) of
                None \<Rightarrow> (Blocked, tx_remaining, d, w1)
              | Some (events, w2) \<Rightarrow>
                  (case scan_events (fd s) (pipe_abort_write_r s) TIMEOUT events w2 of
                     (Inl e, w3) \<Rightarrow> (Exc e, tx_remaining, d, w3)
                   | (Inr result, w3) \<Rightarrow>
                       if result = TIMEOUT
                         then (Exc (SerialTimeoutException ''Write timeout''), tx_remaining, d, w3)
                       else if result = ABORT then (Break, tx_remaining, d, w3)
                       else (Next, tx_remaining, d, w3)))))"

text \<open>
  The handler \<^verbatim>\<open>except OSError as e\<close> (lines 123 to 125). It is the only handler of
  the \<^verbatim>\<open>try\<close> statement, so it sees every exception of the body that is an
  \<^verbatim>\<open>OSError\<close>, those the body raises itself included.
\<close>

definition except_OSError :: "flow \<Rightarrow> flow" where
  "except_OSError fl =
     (case fl of
        Exc e \<Rightarrow>
          if is_OSError e then
            (if errno_of e \<notin>
                  {Some EAGAIN, Some EALREADY, Some EWOULDBLOCK, Some EINPROGRESS, Some EINTR}
               then Exc (SerialException (''write failed: '' @ str_of e))
             else Next)
          else Exc e
      | _ \<Rightarrow> fl)"

text \<open>The \<^verbatim>\<open>while tx_remaining > 0\<close> loop (lines 90 to 128) and the final return.\<close>

function write_loop ::
  "serial \<Rightarrow> timeout_obj \<Rightarrow> (descr \<times> nat) list \<Rightarrow> int \<Rightarrow> int \<Rightarrow> bytes \<Rightarrow> os_state \<Rightarrow>
     int outcome \<times> os_state" where
  "write_loop s t poll total_len tx_remaining d w =
     (if tx_remaining > 0 then
        (case write_try s t poll tx_remaining d w of
           (fl, tx_remaining', d', w') \<Rightarrow>
             (case except_OSError fl of
                Return n \<Rightarrow> (Returns n, w')
              | Exc e \<Rightarrow> (Raises e, w')
              | Blocked \<Rightarrow> (Blocks, w')
              | Break \<Rightarrow> (Returns (total_len - int (length d')), w')
              | Next \<Rightarrow>
                  if \<not> is_non_blocking t \<and> expired t w'
                    then (Raises (SerialTimeoutException ''Write timeout''), w')
                  else write_loop s t poll total_len tx_remaining' d' w'))
      else (Returns (total_len - int (length d)), w))"
  by pat_completeness auto

text \<open>
  The argument of \<^verbatim>\<open>write\<close> is annotated \<^verbatim>\<open>Any\<close>; pyserial's \<^verbatim>\<open>to_bytes\<close> takes
  byte strings as they are and refuses text.
\<close>

datatype pydata = Bytes bytes | Unicode string

definition to_bytes :: "pydata \<Rightarrow> exn + bytes" where
  "to_bytes data = (case data of Bytes b \<Rightarrow> Inr b | Unicode u \<Rightarrow> Inl TypeError)"

text \<open>The poll object that \<^verbatim>\<open>write\<close> builds (lines 86 to 88).\<close>

definition write_poll :: "serial \<Rightarrow> (descr \<times> nat) list" where
  "write_poll s =
     register (register [] (fd s) (POLLOUT OR POLLERR OR POLLHUP OR POLLNVAL))
       (pipe_abort_write_r s) (POLLIN OR POLLERR OR POLLHUP OR POLLNVAL)"

definition Serial_write :: "serial \<Rightarrow> pydata \<Rightarrow> os_state \<Rightarrow> int outcome \<times> os_state" where
  "Serial_write s data w =
     (if \<not> is_open s then (Raises PortNotOpenError, w)
      else
        (case to_bytes data of
           Inl e \<Rightarrow> (Raises e, w)
         | Inr d \<Rightarrow>
             (let total_len = int (length d);
                  tx_remaining = total_len;
                  t = Timeout w (write_timeout s);
                  poll = write_poll s
              in write_loop s t poll total_len tx_remaining d w)))"

subsection \<open>Reading the trace\<close>

text \<open>The bytes that the reads of descriptor \<open>dev\<close> in a stretch of the trace delivered.\<close>

fun received :: "descr \<Rightarrow> syscall list \<Rightarrow> bytes" where
  "received dev [] = []"
| "received dev (Read f n buf # cs) = (if f = dev then buf @ received dev cs else received dev cs)"
| "received dev (c # cs) = received dev cs"

text \<open>
  A stretch of the trace ends on data when its last system call is a read of \<open>dev\<close> that
  delivered every byte it asked for (or when no system call was made at all), and not on
  a readiness wait or on the draining of an abort pipe.
\<close>

definition ended_on_data :: "descr \<Rightarrow> syscall list \<Rightarrow> bool" where
  "ended_on_data dev seg =
     (seg = [] \<or> (case last seg of Read f n buf \<Rightarrow> f = dev \<and> length buf = n | _ \<Rightarrow> False))"

text \<open>The bytes that the writes to descriptor \<open>dev\<close> in a stretch of the trace got accepted.\<close>

fun sent :: "descr \<Rightarrow> syscall list \<Rightarrow> bytes" where
  "sent dev [] = []"
| "sent dev (Write f d (Inr n) # cs) = (if f = dev then take n d @ sent dev cs else sent dev cs)"
| "sent dev (c # cs) = sent dev cs"

text \<open>The number of \<^verbatim>\<open>os.write\<close> attempts in a stretch of the trace.\<close>

fun attempts :: "syscall list \<Rightarrow> nat" where
  "attempts [] = 0"
| "attempts (Write f d r # cs) = Suc (attempts cs)"
| "attempts (c # cs) = attempts cs"

text \<open>
  The error numbers that the handler of \<^verbatim>\<open>write\<close> lets pass (line 124), and an attempt
  to write \<open>d\<close> to \<open>dev\<close> that failed with one of them.
\<close>

definition transient :: "int set" where
  "transient = {EAGAIN, EALREADY, EWOULDBLOCK, EINPROGRESS, EINTR}"

fun transient_failure :: "descr \<Rightarrow> bytes \<Rightarrow> syscall \<Rightarrow> bool" where
  "transient_failure dev d (Write f d' (Inl (OSError e msg))) = (f = dev \<and> d' = d \<and> e \<in> transient)"
| "transient_failure dev d c = False"

text \<open>
  A report of \<^verbatim>\<open>poll\<close> on which the abort pipe is seen: the pipe is in the report and
  no other descriptor of the report has an error bit.
\<close>

definition abort_first :: "descr \<Rightarrow> (descr \<times> nat) list \<Rightarrow> bool" where
  "abort_first pipe events =
     (pipe \<in> fst ` set events \<and>
      (\<forall>(f, e) \<in> set events. f \<noteq> pipe \<longrightarrow> e AND (POLLERR OR POLLHUP OR POLLNVAL) = 0))"

subsection \<open>A port and an operating system to run the model on\<close>

text \<open>
  An open port on descriptor 3 with its abort pipes on 4 and 6, a read timeout of 100 ms
  and a write timeout of one second; and an operating system on which nothing happens:
  no wake-up to come, nothing to read, a device that takes whatever is written.
\<close>

definition port :: serial where
  "port = \<lparr>is_open = True, fd = 3, pipe_abort_read_r = 4, pipe_abort_write_r = 6,
           timeout = Some 100, write_timeout = Some 1000, inter_byte_timeout = None\<rparr>"

definition idle :: os_state where
  "idle = \<lparr>clock = 0, timeline = [], files = (\<lambda>f. []), write_script = [], trace = []\<rparr>"

definition hello :: bytes where
  "hello = [104, 101, 108, 108, 111]"



text \<open>
  After 10 ms another thread has written the byte \<^verbatim>\<open>x\<close> to the abort pipe of the read
  direction; of the write direction, with a device that takes two bytes at first; and a
  device that hangs up at the moment the read is aborted.
\<close>

definition read_aborted :: os_state where
  "read_aborted = idle\<lparr>timeline := [(10, [(4, POLLIN)])], files := (\<lambda>f. [])(4 := [[120]])\<rparr>"

definition write_aborted :: os_state where
  "write_aborted = idle\<lparr>timeline := [(10, [(6, POLLIN)])], files := (\<lambda>f. [])(6 := [[120]]),
                        write_script := [(0, Inr 2)]\<rparr>"

definition hangup_and_abort :: os_state where
  "hangup_and_abort =
     idle\<lparr>timeline := [(10, [(3, POLLHUP), (4, POLLIN)])], files := (\<lambda>f. [])(4 := [[120]])\<rparr>"

text \<open>
  A device that is busy at the first write attempt and takes two bytes at the second;
  and one that fails for good.
\<close>

definition busy_once :: os_state where
  "busy_once = idle\<lparr>write_script :=
     [(0, Inl (11, ''[Errno 11] Resource temporarily unavailable'')), (0, Inr 2)]\<rparr>"

definition broken :: os_state where
  "broken = idle\<lparr>write_script := [(0, Inl (5, ''[Errno 5] Input/output error''))]\<rparr>"

section \<open>Termination of the two loops\<close>

text \<open>
  Every pass through either loop that comes back to the loop head has used up a wake-up
  of the timeline or an answer of the write script.
\<close>

lemma os_read_timeline [simp]: "timeline (snd (os_read w f n)) = timeline w"
  by (simp add: os_read_def split: list.splits)

lemma os_read_write_script [simp]: "write_script (snd (os_read w f n)) = write_script w"
  by (simp add: os_read_def split: list.splits)

lemma scan_events_timeline:
  "scan_events dev pipe result events w = (r, w') \<Longrightarrow> timeline w' = timeline w"
  by (induction dev pipe result events w rule: scan_events.induct) (auto split: if_splits)

lemma scan_events_write_script:
  "scan_events dev pipe result events w = (r, w') \<Longrightarrow> write_script w' = write_script w"
  by (induction dev pipe result events w rule: scan_events.induct) (auto split: if_splits)

lemma scan_events_READY:
  "scan_events dev pipe TIMEOUT events w = (Inr READY, w') \<Longrightarrow> events \<noteq> []"
  by (cases events) auto

lemma scan_events_Inl:
  "scan_events dev pipe result events w = (Inl e, w') \<Longrightarrow>
     e = SerialException ''device reports error (poll)'' \<and> w' = w"
  by (induction dev pipe result events w rule: scan_events.induct) (auto split: if_splits)

lemma poll_wait_length:
  "poll_wait reg tmo el tls = Some (events, el', rest) \<Longrightarrow> length rest \<le> length tls"
  by (induction reg tmo el tls rule: poll_wait.induct) (auto split: option.splits if_splits)

lemma poll_wait_pops:
  "poll_wait reg tmo el tls = Some (events, el', rest) \<Longrightarrow> events \<noteq> [] \<Longrightarrow>
     length rest < length tls"
  by (induction reg tmo el tls rule: poll_wait.induct) (auto split: option.splits if_splits)

lemma poll_poll_length:
  "poll_poll w reg tmo = Some (events, w') \<Longrightarrow> length (timeline w') \<le> length (timeline w)"
  by (auto simp: poll_poll_def split: option.splits dest: poll_wait_length)

lemma poll_poll_pops:
  "poll_poll w reg tmo = Some (events, w') \<Longrightarrow> events \<noteq> [] \<Longrightarrow>
     length (timeline w') < length (timeline w)"
  by (auto simp: poll_poll_def split: option.splits dest: poll_wait_pops)

lemma poll_poll_write_script:
  "poll_poll w reg tmo = Some (events, w') \<Longrightarrow> write_script w' = write_script w"
  by (auto simp: poll_poll_def split: option.splits)

termination read_loop
proof (relation "measure (\<lambda>(s, t, poll, sz, rd, w). length (timeline w))", goal_cases)
  case 1
  show ?case by simp
next
  case (2 s t poll sz rd w x2 events w1 r w2 result buf w3)
  from 2 have p: "poll_poll w poll (poll_timeout t w) = Some (events, w1)"
    by simp
  from 2 have sc: "scan_events (fd s) (pipe_abort_read_r s) TIMEOUT events w1 = (Inr READY, w2)"
    by simp
  from 2 have "w3 = snd (os_read w2 (fd s) (nat (sz - int (length rd))))"
    by (metis snd_conv)
  then have "timeline w3 = timeline w1"
    using scan_events_timeline [OF sc] by simp
  moreover have "length (timeline w1) < length (timeline w)"
    using poll_poll_pops [OF p] scan_events_READY [OF sc] by simp
  ultimately show ?case by simp
next
  case (3 s t poll sz rd w x2 events w1 r w2 result)
  then show ?case by (cases result) simp_all
qed

lemma os_write_timeline: "os_write w f d = (r, w') \<Longrightarrow> timeline w' = timeline w"
  by (auto simp: os_write_def Let_def split: list.splits)

lemma os_write_script:
  "os_write w f d = (r, w') \<Longrightarrow> length (write_script w') \<le> length (write_script w)"
  by (auto simp: os_write_def Let_def split: list.splits)

lemma os_write_Inl:
  "os_write w f d = (Inl e, w') \<Longrightarrow> length (write_script w') < length (write_script w)"
  by (auto simp: os_write_def Let_def split: list.splits)

lemma except_OSError_Next:
  "except_OSError fl = Next \<Longrightarrow> fl = Next \<or> (\<exists>n msg. fl = Exc (OSError n msg))"
  by (cases fl; simp add: except_OSError_def split: if_splits; rename_tac e; case_tac e; simp)

lemma write_try_measure:
  assumes "write_try s t poll tx_remaining d w = (fl, r', d', w')"
    and "except_OSError fl = Next"
  shows "length (write_script w') + length (timeline w') <
         length (write_script w) + length (timeline w)"
proof -
  obtain r w1 where ow: "os_write w (fd s) d = (r, w1)"
    by (cases "os_write w (fd s) d")
  note tl1 = os_write_timeline [OF ow] and ws1 = os_write_script [OF ow]
  from assms(2) consider "fl = Next" | n msg where "fl = Exc (OSError n msg)"
    using except_OSError_Next by blast
  then show ?thesis
  proof cases
    case 1
    with assms(1) ow obtain k events w2 where r: "r = Inr k"
      and p: "poll_poll w1 poll (poll_timeout t w1) = Some (events, w2)"
      and sc: "scan_events (fd s) (pipe_abort_write_r s) TIMEOUT events w2 = (Inr READY, w')"
      by (auto simp: write_try_def Let_def split: sum.splits if_splits option.splits prod.splits
               PollResult.splits)
         (metis PollResult.exhaust)
    have "length (timeline w2) < length (timeline w1)"
      using poll_poll_pops [OF p] scan_events_READY [OF sc] by simp
    moreover have "timeline w' = timeline w2" "write_script w' = write_script w2"
      using scan_events_timeline [OF sc] scan_events_write_script [OF sc] by simp_all
    moreover have "write_script w2 = write_script w1"
      using poll_poll_write_script [OF p] .
    ultimately show ?thesis using tl1 ws1 by simp
  next
    case 2
    with assms(1) ow have "r = Inl (OSError n msg) \<and> w' = w1"
      by (auto simp: write_try_def Let_def split: sum.splits if_splits option.splits prod.splits
               dest: scan_events_Inl)
    then show ?thesis using os_write_Inl [of w "fd s" d "OSError n msg" w1] ow tl1 by simp
  qed
qed

termination write_loop
proof (relation "measure (\<lambda>(s, t, poll, total_len, tx_remaining, d, w).
                  length (write_script w) + length (timeline w))", goal_cases)
  case 1
  show ?case by simp
next
  case 2
  then show ?case
    using write_try_measure by (metis (no_types, lifting) in_measure case_prod_conv)
qed

declare read_loop.simps [simp del] write_loop.simps [simp del]

section \<open>Facts about the system calls\<close>

lemmas os_consts = POLLIN_def POLLOUT_def POLLERR_def POLLHUP_def POLLNVAL_def
  EAGAIN_def EALREADY_def EWOULDBLOCK_def EINPROGRESS_def EINTR_def

lemmas eval_defs = Serial_read_def Serial_write_def read_poll_def write_poll_def to_bytes_def
  port_def idle_def hello_def Let_def Timeout_def poll_timeout_def time_left_def expired_def
  poll_poll_def revents_def conds_of_def os_read_def os_write_def truthy_def write_try_def
  except_OSError_def os_consts

lemma received_append [simp]: "received dev (xs @ ys) = received dev xs @ received dev ys"
  by (induction dev xs rule: received.induct) simp_all

lemma poll_poll_trace:
  "poll_poll w reg tmo = Some (events, w1) \<Longrightarrow> trace w1 = trace w @ [Poll tmo events]"
  by (auto simp: poll_poll_def split: option.splits)

lemma poll_poll_files:
  "poll_poll w reg tmo = Some (events, w1) \<Longrightarrow> files w1 = files w"
  by (auto simp: poll_poll_def split: option.splits)






lemma ended_on_data_Poll [simp]: "\<not> ended_on_data dev (xs @ [Poll tmo evs])"
  by (simp add: ended_on_data_def)

lemma ended_on_data_Read [simp]:
  "ended_on_data dev (xs @ [Read f n buf]) \<longleftrightarrow> f = dev \<and> length buf = n"
  by (simp add: ended_on_data_def)


section \<open>What \<^verbatim>\<open>read\<close> returns\<close>






section \<open>The inter-byte timeout\<close>




section \<open>Aborts\<close>

lemma scan_events_abort:
  "abort_first pipe events \<Longrightarrow>
     scan_events dev pipe result events w = (Inr ABORT, snd (os_read w pipe 1000))"
proof (induction events arbitrary: result)
  case Nil
  then show ?case by (simp add: abort_first_def)
next
  case (Cons a events)
  obtain f e where a: "a = (f, e)" by (cases a)
  show ?case
  proof (cases "f = pipe")
    case True
    with a show ?thesis by simp
  next
    case False
    with Cons.prems a have "abort_first pipe events" "e AND (POLLERR OR POLLHUP OR POLLNVAL) = 0"
      by (auto simp: abort_first_def)
    with Cons.IH a False show ?thesis by simp
  qed
qed

lemma os_read_drains:
  "files w f = c # cs \<Longrightarrow> length c \<le> n \<Longrightarrow> files (snd (os_read w f n)) f = cs"
  by (simp add: os_read_def)

text \<open>
  Claim C2, as the code has it. When the wait reports the abort pipe and no other
  descriptor in the report has an error bit, both loops read up to 1000 bytes from the
  pipe, which empties a pending signal of at most 1000 bytes, and end as a normal
  completion:
  \<^verbatim>\<open>read\<close> returns exactly the bytes accumulated so far and \<^verbatim>\<open>write\<close> the count written
  so far.
\<close>

theorem abort_completes:
  "(int (length rd) < sz \<and>
    poll_poll w poll (poll_timeout t w) = Some (events, w1) \<and>
    abort_first (pipe_abort_read_r s) events \<and>
    files w1 (pipe_abort_read_r s) = c # cs \<and> length c \<le> 1000
    \<longrightarrow> read_loop s t poll sz rd w = (Returns rd, snd (os_read w1 (pipe_abort_read_r s) 1000)) \<and>
        files (snd (os_read w1 (pipe_abort_read_r s) 1000)) (pipe_abort_read_r s) = cs) \<and>
   (0 < tx_remaining \<and>
    os_write w (fd s) d = (Inr n, w1) \<and> \<not> is_non_blocking t \<and> tx_remaining - int n \<noteq> 0 \<and>
    poll_poll w1 poll' (poll_timeout t w1) = Some (events, w2) \<and>
    abort_first (pipe_abort_write_r s) events \<and>
    files w2 (pipe_abort_write_r s) = c # cs \<and> length c \<le> 1000
    \<longrightarrow> write_loop s t poll' total_len tx_remaining d w
          = (Returns (total_len - int (length (drop n d))),
             snd (os_read w2 (pipe_abort_write_r s) 1000)) \<and>
        files (snd (os_read w2 (pipe_abort_write_r s) 1000)) (pipe_abort_write_r s) = cs)"
proof (intro conjI impI; elim conjE)
  assume "int (length rd) < sz" "poll_poll w poll (poll_timeout t w) = Some (events, w1)"
    "abort_first (pipe_abort_read_r s) events"
  then show "read_loop s t poll sz rd w
               = (Returns rd, snd (os_read w1 (pipe_abort_read_r s) 1000))"
    by (simp add: read_loop.simps scan_events_abort)
next
  assume "0 < tx_remaining" "os_write w (fd s) d = (Inr n, w1)" "\<not> is_non_blocking t"
    "tx_remaining - int n \<noteq> 0" "poll_poll w1 poll' (poll_timeout t w1) = Some (events, w2)"
    "abort_first (pipe_abort_write_r s) events"
  then show "write_loop s t poll' total_len tx_remaining d w
          = (Returns (total_len - int (length (drop n d))),
             snd (os_read w2 (pipe_abort_write_r s) 1000))"
    by (simp add: write_loop.simps write_try_def Let_def scan_events_abort except_OSError_def)
qed (simp_all add: os_read_drains)

theorem abort_completes_witness:
  "int (length [65::byte]) < 4 \<and>
   poll_poll read_aborted (read_poll port) (poll_timeout (Timeout read_aborted (Some 100)) read_aborted)
     = Some ([(4, 1)], read_aborted\<lparr>clock := 10, timeline := [], trace := [Poll (Some 100) [(4, 1)]]\<rparr>) \<and>
   abort_first (pipe_abort_read_r port) [(4, 1)] \<and>
   files (read_aborted\<lparr>clock := 10, timeline := [], trace := [Poll (Some 100) [(4, 1)]]\<rparr>)
     (pipe_abort_read_r port) = [120] # [] \<and>
   length [120::byte] \<le> 1000 \<and>
   fst (read_loop port (Timeout read_aborted (Some 100)) (read_poll port) 4 [65] read_aborted)
     = Returns [65] \<and>
   files (snd (read_loop port (Timeout read_aborted (Some 100)) (read_poll port) 4 [65] read_aborted))
     (pipe_abort_read_r port) = [] \<and>
   (0::int) < 5 \<and>
   os_write write_aborted (fd port) hello
     = (Inr 2, write_aborted\<lparr>write_script := [], trace := [Write 3 hello (Inr 2)]\<rparr>) \<and>
   \<not> is_non_blocking (Timeout write_aborted (Some 1000)) \<and> 5 - int 2 \<noteq> 0 \<and>
   poll_poll (write_aborted\<lparr>write_script := [], trace := [Write 3 hello (Inr 2)]\<rparr>) (write_poll port)
       (poll_timeout (Timeout write_aborted (Some 1000))
          (write_aborted\<lparr>write_script := [], trace := [Write 3 hello (Inr 2)]\<rparr>))
     = Some ([(6, 1)], write_aborted\<lparr>clock := 10, timeline := [], write_script := [],
                 trace := [Write 3 hello (Inr 2), Poll (Some 1000) [(6, 1)]]\<rparr>) \<and>
   abort_first (pipe_abort_write_r port) [(6, 1)] \<and>
   files (write_aborted\<lparr>clock := 10, timeline := [], write_script := [],
                 trace := [Write 3 hello (Inr 2), Poll (Some 1000) [(6, 1)]]\<rparr>)
     (pipe_abort_write_r port) = [120] # [] \<and>
   fst (write_loop port (Timeout write_aborted (Some 1000)) (write_poll port) 5 5 hello write_aborted)
     = Returns 2 \<and>
   files (snd (write_loop port (Timeout write_aborted (Some 1000)) (write_poll port) 5 5 hello
                 write_aborted)) (pipe_abort_write_r port) = []"
proof -
  let ?tr = "Timeout read_aborted (Some 100)"
  let ?r1 = "read_aborted\<lparr>clock := 10, timeline := [], trace := [Poll (Some 100) [(4, 1)]]\<rparr>"
  let ?tw = "Timeout write_aborted (Some 1000)"
  let ?w1 = "write_aborted\<lparr>write_script := [], trace := [Write 3 hello (Inr 2)]\<rparr>"
  let ?w2 = "write_aborted\<lparr>clock := 10, timeline := [], write_script := [],
                 trace := [Write 3 hello (Inr 2), Poll (Some 1000) [(6, 1)]]\<rparr>"
  have r1: "int (length [65::byte]) < 4" by simp
  have r2: "poll_poll read_aborted (read_poll port) (poll_timeout ?tr read_aborted)
              = Some ([(4, 1)], ?r1)"
    by (simp add: read_poll_def read_aborted_def eval_defs)
  have r3: "abort_first (pipe_abort_read_r port) [(4, 1)]"
    by (simp add: abort_first_def port_def)
  have r4: "files ?r1 (pipe_abort_read_r port) = [120] # []"
    by (simp add: read_aborted_def port_def)
  have r5: "length [120::byte] \<le> 1000" by simp
  note r = abort_completes [THEN conjunct1, rule_format, OF conjI [OF r1 conjI [OF r2 conjI [OF r3 conjI [OF r4 r5]]]]]
  have w0: "(0::int) < 5" by simp
  have w1: "os_write write_aborted (fd port) hello = (Inr 2, ?w1)"
    by (simp add: write_aborted_def eval_defs)
  have w2: "\<not> is_non_blocking ?tw" by (simp add: Timeout_def)
  have w3: "5 - int 2 \<noteq> 0" by simp
  have w4: "poll_poll ?w1 (write_poll port) (poll_timeout ?tw ?w1) = Some ([(6, 1)], ?w2)"
    by (simp add: write_poll_def write_aborted_def eval_defs)
  have w5: "abort_first (pipe_abort_write_r port) [(6, 1)]"
    by (simp add: abort_first_def port_def)
  have w6: "files ?w2 (pipe_abort_write_r port) = [120] # []"
    by (simp add: write_aborted_def port_def)
  note w = abort_completes [THEN conjunct2, rule_format, OF conjI [OF w0 conjI [OF w1 conjI [OF w2
      conjI [OF w3 conjI [OF w4 conjI [OF w5 conjI [OF w6 r5]]]]]]], of 5]
  have len: "length hello = 5" by (simp add: hello_def)
  show ?thesis
    using r1 r2 r3 r4 w1 w2 w4 w5 w6 r w by (simp add: len)
qed

text \<open>
  Claim C2, as stated, fails when the device reports an error on the same wake-up as the
  abort pipe fires: the device was registered first, so its entry comes first in the
  report, \<^verbatim>\<open>read\<close> raises the device error and the byte in the abort pipe stays there
  for the next call.
\<close>

theorem abort_and_hangup_counterexample:
  "fst (Serial_read port 4 hangup_and_abort) = Raises (SerialException ''device reports error (poll)'') \<and>
   trace (snd (Serial_read port 4 hangup_and_abort)) = [Poll (Some 100) [(3, 16), (4, 1)]] \<and>
   files (snd (Serial_read port 4 hangup_and_abort)) 4 = [[120]]"
  by (simp add: hangup_and_abort_def read_loop.simps eval_defs)

section \<open>Exceptions raised inside the \<^verbatim>\<open>try\<close> statement of \<^verbatim>\<open>write\<close>\<close>

text \<open>
  On the read path a device error leaves the call as it is raised, whatever has been
  read so far.
\<close>

lemma read_device_error:
  "int (length rd) < sz \<Longrightarrow>
   poll_poll w poll (poll_timeout t w) = Some ((f, e) # events, w1) \<Longrightarrow>
   f \<noteq> pipe_abort_read_r s \<Longrightarrow> e AND (POLLERR OR POLLHUP OR POLLNVAL) \<noteq> 0 \<Longrightarrow>
   read_loop s t poll sz rd w = (Raises (SerialException ''device reports error (poll)''), w1)"
  by (simp add: read_loop.simps)

text \<open>
  Claim C3 on the write path. \<^verbatim>\<open>write(b"hello")\<close> with a write timeout of one second:
  the device takes two bytes and hangs up 10 ms later. Line 114 raises
  \<^verbatim>\<open>SerialException("device reports error (poll)")\<close> inside the \<^verbatim>\<open>try\<close> statement, whose
  only handler, \<^verbatim>\<open>except OSError\<close>, catches it and raises the write-failed error in its
  place.
\<close>

theorem write_device_error_wrapped:
  "fst (Serial_write port (Bytes hello)
          (idle\<lparr>write_script := [(0, Inr 2)], timeline := [(10, [(3, POLLHUP)])]\<rparr>))
     = Raises (SerialException ''write failed: device reports error (poll)'')"
  by (simp add: write_loop.simps eval_defs)

text \<open>
  The deadline check after the \<^verbatim>\<open>try\<close> statement (lines 127 and 128) is outside the
  handler's reach: its \<^verbatim>\<open>SerialTimeoutException\<close> leaves the call as it is raised.
\<close>

lemma write_deadline_expired:
  "0 < tx_remaining \<Longrightarrow> write_try s t poll tx_remaining d w = (Next, r', d', w') \<Longrightarrow>
   \<not> is_non_blocking t \<Longrightarrow> expired t w' \<Longrightarrow>
   write_loop s t poll total_len tx_remaining d w
     = (Raises (SerialTimeoutException ''Write timeout''), w')"
  by (simp add: write_loop.simps except_OSError_def)

text \<open>
  So a device that is writable all along and takes no byte until the deadline of one
  second has passed ends in the write timeout.
\<close>

lemma write_no_progress_times_out:
  "fst (Serial_write port (Bytes hello)
          (idle\<lparr>write_script := [(0, Inr 0), (0, Inr 0)],
                timeline := [(600, [(3, POLLOUT)]), (400, [(3, POLLOUT)])]\<rparr>))
     = Raises (SerialTimeoutException ''Write timeout'')"
  by (simp add: write_loop.simps eval_defs)

text \<open>
  Claim C4 for a wait that returns with no channel ready. \<^verbatim>\<open>write(b"hello")\<close> with a
  write timeout of one second: the device takes two bytes and nothing becomes ready
  within the second. Line 119 raises \<^verbatim>\<open>SerialTimeoutException("Write timeout")\<close> inside
  the \<^verbatim>\<open>try\<close> statement, and the handler turns it into a \<^verbatim>\<open>SerialException\<close>.
\<close>

theorem write_poll_timeout_wrapped:
  "fst (Serial_write port (Bytes hello) (idle\<lparr>write_script := [(0, Inr 2)]\<rparr>))
     = Raises (SerialException ''write failed: Write timeout'')"
  by (simp add: write_loop.simps eval_defs)

section \<open>Failures of the write system call\<close>

lemma sent_append [simp]: "sent dev (xs @ ys) = sent dev xs @ sent dev ys"
  by (induction dev xs rule: sent.induct) simp_all

lemma os_write_result:
  "os_write w f d = (r, w1) \<Longrightarrow>
     trace w1 = trace w @ [Write f d r] \<and>
     (case r of Inl e \<Rightarrow> \<exists>n msg. e = OSError n msg | Inr n \<Rightarrow> n \<le> length d)"
  by (auto simp: os_write_def Let_def split: list.splits sum.splits prod.splits)

text \<open>One pass through the loop on which \<^verbatim>\<open>os.write\<close> raises.\<close>

lemma write_loop_failed_attempt:
  assumes "0 < tx_remaining" and "os_write w (fd s) d = (Inl (OSError e msg), w1)"
  shows "write_loop s t poll total_len tx_remaining d w =
     (if e \<in> {EAGAIN, EALREADY, EWOULDBLOCK, EINPROGRESS, EINTR} then
        (if \<not> is_non_blocking t \<and> expired t w1
           then (Raises (SerialTimeoutException ''Write timeout''), w1)
         else write_loop s t poll total_len tx_remaining d w1)
      else (Raises (SerialException (''write failed: '' @ msg)), w1))"
  using assms
  by (subst write_loop.simps) (simp add: write_try_def except_OSError_def)

text \<open>
  Claim C7. When \<^verbatim>\<open>os.write\<close> fails with \<^verbatim>\<open>EAGAIN\<close>, \<^verbatim>\<open>EALREADY\<close>,
  \<^verbatim>\<open>EWOULDBLOCK\<close>, \<^verbatim>\<open>EINPROGRESS\<close> or \<^verbatim>\<open>EINTR\<close>, the pass counts as no progress:
  after the deadline check that ends every pass, the loop is entered again with
  \<^verbatim>\<open>tx_remaining\<close> and \<^verbatim>\<open>d\<close> as they were. Any other failure of \<^verbatim>\<open>os.write\<close> is
  raised at once as \<^verbatim>\<open>SerialException\<close> with the message \<^verbatim>\<open>write failed:\<close> followed by
  the description of the error.
\<close>

theorem write_oserror:
  assumes "0 < tx_remaining" and "os_write w (fd s) d = (Inl (OSError e msg), w1)"
  shows "write_loop s t poll total_len tx_remaining d w =
     (if e \<in> {EAGAIN, EALREADY, EWOULDBLOCK, EINPROGRESS, EINTR} then
        (if \<not> is_non_blocking t \<and> expired t w1
           then (Raises (SerialTimeoutException ''Write timeout''), w1)
         else write_loop s t poll total_len tx_remaining d w1)
      else (Raises (SerialException (''write failed: '' @ msg)), w1))"
  using assms by (rule write_loop_failed_attempt)

theorem write_oserror_witness:
  "(0::int) < 5 \<and>
   os_write busy_once (fd port) hello
     = (Inl (OSError 11 ''[Errno 11] Resource temporarily unavailable''),
        busy_once\<lparr>write_script := [(0, Inr 2)],
          trace := [Write 3 hello (Inl (OSError 11 ''[Errno 11] Resource temporarily unavailable''))]\<rparr>) \<and>
   write_loop port (Timeout busy_once (Some 1000)) (write_poll port) 5 5 hello busy_once
     = write_loop port (Timeout busy_once (Some 1000)) (write_poll port) 5 5 hello
         (busy_once\<lparr>write_script := [(0, Inr 2)],
            trace := [Write 3 hello (Inl (OSError 11 ''[Errno 11] Resource temporarily unavailable''))]\<rparr>) \<and>
   os_write broken (fd port) hello
     = (Inl (OSError 5 ''[Errno 5] Input/output error''),
        broken\<lparr>write_script := [],
          trace := [Write 3 hello (Inl (OSError 5 ''[Errno 5] Input/output error''))]\<rparr>) \<and>
   write_loop port (Timeout broken (Some 1000)) (write_poll port) 5 5 hello broken
     = (Raises (SerialException ''write failed: [Errno 5] Input/output error''),
        broken\<lparr>write_script := [],
          trace := [Write 3 hello (Inl (OSError 5 ''[Errno 5] Input/output error''))]\<rparr>)"
proof -
  let ?b1 = "busy_once\<lparr>write_script := [(0, Inr 2)],
          trace := [Write 3 hello (Inl (OSError 11 ''[Errno 11] Resource temporarily unavailable''))]\<rparr>"
  let ?k1 = "broken\<lparr>write_script := [],
          trace := [Write 3 hello (Inl (OSError 5 ''[Errno 5] Input/output error''))]\<rparr>"
  have h0: "(0::int) < 5" by simp
  have h1: "os_write busy_once (fd port) hello
     = (Inl (OSError 11 ''[Errno 11] Resource temporarily unavailable''), ?b1)"
    by (simp add: busy_once_def eval_defs)
  have h2: "os_write broken (fd port) hello
     = (Inl (OSError 5 ''[Errno 5] Input/output error''), ?k1)"
    by (simp add: broken_def eval_defs)
  have e1: "\<not> expired (Timeout busy_once (Some 1000)) ?b1"
    by (simp add: busy_once_def eval_defs)
  from write_oserror [OF h0 h1, of "Timeout busy_once (Some 1000)" "write_poll port" 5]
       write_oserror [OF h0 h2, of "Timeout broken (Some 1000)" "write_poll port" 5]
       h1 h2 e1
  show ?thesis by (simp add: os_consts)
qed

section \<open>What \<^verbatim>\<open>write\<close> returns\<close>

lemma os_read_trace_snd:
  "trace (snd (os_read w f n)) = trace w @ [Read f n (fst (os_read w f n))]"
  by (simp add: os_read_def split: list.splits)

lemma scan_events_sent:
  "scan_events dev pipe result events w = (r, w') \<Longrightarrow>
     \<exists>zs. trace w' = trace w @ zs \<and> sent f zs = []"
proof (induction dev pipe result events w rule: scan_events.induct)
  case (1 dev pipe result w)
  then show ?case by simp
next
  case (2 dev pipe result g event events w)
  show ?case
  proof (cases "g = pipe")
    case True
    with "2.prems" have "w' = snd (os_read w pipe 1000)" by simp
    then have "trace w' = trace w @ [Read pipe 1000 (fst (os_read w pipe 1000))]"
      by (simp add: os_read_trace_snd)
    then show ?thesis by (intro exI [of _ "[Read pipe 1000 (fst (os_read w pipe 1000))]"]) simp
  next
    case False
    show ?thesis
    proof (cases "event AND (POLLERR OR POLLHUP OR POLLNVAL) \<noteq> 0")
      case True
      with "2.prems" False have "w' = w" by simp
      then show ?thesis by simp
    next
      case noerr: False
      show ?thesis
      proof (cases "g = dev")
        case True
        with "2.prems" False noerr "2.IH"(1) show ?thesis by simp
      next
        case nd: False
        with "2.prems" False noerr "2.IH"(2) show ?thesis by simp
      qed
    qed
  qed
qed

text \<open>What one pass through the body of the \<^verbatim>\<open>try\<close> statement has sent when the loop goes on
  or ends normally.\<close>

lemma write_try_sent:
  assumes "write_try s t poll tx d w = (fl, tx', d', w')"
    and "except_OSError fl = Next \<or> except_OSError fl = Break \<or> except_OSError fl = Return m"
  shows "\<exists>n pre. n \<le> length d \<and> trace w' = trace w @ pre \<and> sent (fd s) pre = take n d \<and>
           d' = drop n d \<and> tx' = tx - int n \<and>
           (except_OSError fl = Return m \<longrightarrow> m = int n \<and> is_non_blocking t) \<and>
           (except_OSError fl = Next \<and> is_non_blocking t \<longrightarrow> n = 0)"
proof -
  obtain r w1 where ow: "os_write w (fd s) d = (r, w1)"
    by (cases "os_write w (fd s) d")
  note res = os_write_result [OF ow]
  show ?thesis
  proof (cases r)
    case (Inl e)
    with assms(1) ow have "fl = Exc e" "tx' = tx" "d' = d" "w' = w1"
      by (simp_all add: write_try_def)
    with res Inl show ?thesis
      by (intro exI [of _ 0] exI [of _ "[Write (fd s) d (Inl e)]"])
         (use assms(2) in \<open>auto simp: except_OSError_def split: if_splits\<close>)
  next
    case (Inr n)
    with res have n: "n \<le> length d" and tr1: "trace w1 = trace w @ [Write (fd s) d (Inr n)]"
      by simp_all
    show ?thesis
    proof (cases "is_non_blocking t \<or> tx - int n = 0")
      case True
      have "tx' = tx - int n \<and> d' = drop n d \<and> w' = w1 \<and>
        (fl = Return (int n) \<and> is_non_blocking t \<or> fl = Break)"
      proof (cases "is_non_blocking t")
        case nb: True
        with assms(1) ow Inr show ?thesis by (simp add: write_try_def Let_def)
      next
        case False
        with True have "tx - int n = 0" by simp
        with assms(1) ow Inr False show ?thesis by (simp add: write_try_def Let_def)
      qed
      with n tr1 assms(2) show ?thesis
        by (intro exI [of _ n] exI [of _ "[Write (fd s) d (Inr n)]"])
           (auto simp: except_OSError_def)
    next
      case False
      show ?thesis
      proof (cases "poll_poll w1 poll (poll_timeout t w1)")
        case None
        with assms(1) ow Inr False have "fl = Blocked" by (simp add: write_try_def Let_def)
        with assms(2) show ?thesis by (simp add: except_OSError_def)
      next
        case (Some a)
        then obtain events w2 where p: "poll_poll w1 poll (poll_timeout t w1) = Some (events, w2)"
          by (cases a) simp
        obtain sr w3 where
          sc: "scan_events (fd s) (pipe_abort_write_r s) TIMEOUT events w2 = (sr, w3)"
          by (cases "scan_events (fd s) (pipe_abort_write_r s) TIMEOUT events w2")
        from scan_events_sent [OF sc] obtain zs where
          zs: "trace w3 = trace w2 @ zs" "sent (fd s) zs = []" by blast
        from assms(1) ow Inr False p sc
        have st: "tx' = tx - int n" "d' = drop n d" "w' = w3"
          by (auto simp: write_try_def Let_def split: sum.splits if_splits)
        have "fl \<noteq> Return m"
          using assms(1) ow Inr False p sc
          by (auto simp: write_try_def Let_def split: sum.splits if_splits)
        moreover have "trace w' = trace w @ (Write (fd s) d (Inr n) # Poll (poll_timeout t w1) events # zs)"
          using st zs tr1 poll_poll_trace [OF p] by simp
        moreover have "sent (fd s) (Write (fd s) d (Inr n) # Poll (poll_timeout t w1) events # zs)
                         = take n d"
          using zs by simp
        ultimately show ?thesis
          using n st False
          by (intro exI [of _ n]
                exI [of _ "Write (fd s) d (Inr n) # Poll (poll_timeout t w1) events # zs"])
             (auto simp: except_OSError_def split: flow.splits if_splits)
      qed
    qed
  qed
qed

lemma write_loop_sent:
  "write_loop s t poll total_len tx_remaining d w = (Returns c, w') \<Longrightarrow>
   tx_remaining = int (length d) \<Longrightarrow> (is_non_blocking t \<longrightarrow> total_len = int (length d)) \<Longrightarrow>
     \<exists>k seg. k \<le> length d \<and> trace w' = trace w @ seg \<and> sent (fd s) seg = take k d \<and>
        c = total_len - int (length d) + int k"
proof (induction s t poll total_len tx_remaining d w rule: write_loop.induct)
  case (1 s t poll total_len tx_remaining d w)
  note ret = \<open>write_loop s t poll total_len tx_remaining d w = (Returns c, w')\<close>
  note inv = \<open>tx_remaining = int (length d)\<close>
  note nbi = \<open>is_non_blocking t \<longrightarrow> total_len = int (length d)\<close>
  show ?case
  proof (cases "0 < tx_remaining")
    case False
    with ret have "c = total_len - int (length d)" "w' = w" by (simp_all add: write_loop.simps)
    then show ?thesis by (intro exI [of _ 0] exI [of _ "[]"]) simp
  next
    case True
    obtain fl tx' d' w1 where wt: "write_try s t poll tx_remaining d w = (fl, tx', d', w1)"
      by (cases "write_try s t poll tx_remaining d w")
    from ret True wt have fin: "except_OSError fl = Next \<or> except_OSError fl = Break \<or>
        (\<exists>m. except_OSError fl = Return m)"
      by (cases "except_OSError fl") (simp_all add: write_loop.simps)
    then obtain m where fin': "except_OSError fl = Next \<or> except_OSError fl = Break \<or>
        except_OSError fl = Return m" by blast
    from write_try_sent [OF wt fin'] obtain n pre where
      np: "n \<le> length d" "trace w1 = trace w @ pre" "sent (fd s) pre = take n d"
        "d' = drop n d" "tx' = tx_remaining - int n"
        "except_OSError fl = Return m \<longrightarrow> m = int n \<and> is_non_blocking t"
        "except_OSError fl = Next \<and> is_non_blocking t \<longrightarrow> n = 0"
      by blast
    from fin' consider (Ret) "except_OSError fl = Return m" | (Brk) "except_OSError fl = Break"
      | (Nxt) "except_OSError fl = Next" by blast
    then show ?thesis
    proof cases
      case Ret
      with ret True wt have "c = m" "w' = w1" by (simp_all add: write_loop.simps)
      with np Ret nbi show ?thesis by (intro exI [of _ n] exI [of _ pre]) simp
    next
      case Brk
      with ret True wt have "c = total_len - int (length d')" "w' = w1"
        by (simp_all add: write_loop.simps)
      with np show ?thesis by (intro exI [of _ n] exI [of _ pre]) auto
    next
      case Nxt
      with ret True wt have ne: "\<not> (\<not> is_non_blocking t \<and> expired t w1)"
        and rec: "write_loop s t poll total_len tx' d' w1 = (Returns c, w')"
        by (auto simp: write_loop.simps split: if_splits)
      have inv': "tx' = int (length d')" using np inv by simp
      have nbi': "is_non_blocking t \<longrightarrow> total_len = int (length d')"
        using np(4,7) Nxt nbi by auto
      from "1.IH" [OF True wt [symmetric] refl refl Nxt ne rec inv' nbi']
      obtain k seg where ks: "k \<le> length d'" "trace w' = trace w1 @ seg"
        "sent (fd s) seg = take k d'" "c = total_len - int (length d') + int k"
        by blast
      show ?thesis
      proof (intro exI [of _ "n + k"] exI [of _ "pre @ seg"] conjI)
        show "n + k \<le> length d" using np(1,4) ks(1) by simp
        show "trace w' = trace w @ pre @ seg" using np(2) ks(2) by simp
        show "sent (fd s) (pre @ seg) = take (n + k) d"
          using np(3,4) ks(3) by (simp add: take_add)
        show "c = total_len - int (length d) + int (n + k)"
          using ks(4) np(1,4) by simp
      qed
    qed
  qed
qed

text \<open>
  Claim C9. On an open port, the number that \<^verbatim>\<open>write(d)\<close> returns is the number of
  bytes the device accepted during the call: the writes of the call sent exactly that
  many leading bytes of \<open>d\<close>. When the first \<^verbatim>\<open>os.write\<close> accepts all of \<open>d\<close>,
  \<^verbatim>\<open>write\<close> returns \<^verbatim>\<open>len(d)\<close> and that write is the only system call made: there is no
  readiness wait.
\<close>

theorem write_returns_count:
  assumes "is_open s"
  shows "(Serial_write s (Bytes d) w = (Returns c, w') \<longrightarrow>
            0 \<le> c \<and> c \<le> int (length d) \<and>
            (\<exists>seg. trace w' = trace w @ seg \<and> sent (fd s) seg = take (nat c) d)) \<and>
         (d \<noteq> [] \<and> os_write w (fd s) d = (Inr (length d), w1) \<longrightarrow>
            Serial_write s (Bytes d) w = (Returns (int (length d)), w1) \<and>
            trace w1 = trace w @ [Write (fd s) d (Inr (length d))])"
proof (intro conjI impI)
  let ?t = "Timeout w (write_timeout s)"
  have eq: "Serial_write s (Bytes d) w
              = write_loop s ?t (write_poll s) (int (length d)) (int (length d)) d w"
    using assms by (simp add: Serial_write_def to_bytes_def Let_def)
  {
    assume "Serial_write s (Bytes d) w = (Returns c, w')"
    with eq have "write_loop s ?t (write_poll s) (int (length d)) (int (length d)) d w
                    = (Returns c, w')" by simp
    from write_loop_sent [OF this] obtain k seg where
      "k \<le> length d" "trace w' = trace w @ seg" "sent (fd s) seg = take k d"
      "c = int (length d) - int (length d) + int k" by auto
    then have "0 \<le> c \<and> c \<le> int (length d) \<and>
            (\<exists>seg. trace w' = trace w @ seg \<and> sent (fd s) seg = take (nat c) d)"
      by (intro conjI exI [of _ seg]) simp_all
  }
  then show "Serial_write s (Bytes d) w = (Returns c, w') \<Longrightarrow> 0 \<le> c"
    and "Serial_write s (Bytes d) w = (Returns c, w') \<Longrightarrow> c \<le> int (length d)"
    and "Serial_write s (Bytes d) w = (Returns c, w') \<Longrightarrow>
           \<exists>seg. trace w' = trace w @ seg \<and> sent (fd s) seg = take (nat c) d"
    by blast+
  assume a: "d \<noteq> [] \<and> os_write w (fd s) d = (Inr (length d), w1)"
  then show "Serial_write s (Bytes d) w = (Returns (int (length d)), w1)"
    unfolding eq
    by (subst write_loop.simps) (auto simp: write_try_def Let_def except_OSError_def)
  from a os_write_result [of w "fd s" d "Inr (length d)" w1]
  show "trace w1 = trace w @ [Write (fd s) d (Inr (length d))]" by simp
qed

theorem write_returns_count_witness:
  "is_open port \<and>
   Serial_write port (Bytes hello) write_aborted
     = (Returns 2, snd (Serial_write port (Bytes hello) write_aborted)) \<and>
   (\<exists>seg. trace (snd (Serial_write port (Bytes hello) write_aborted)) = trace write_aborted @ seg \<and>
      sent (fd port) seg = take (nat 2) hello) \<and>
   hello \<noteq> [] \<and>
   os_write idle (fd port) hello = (Inr (length hello), idle\<lparr>trace := [Write 3 hello (Inr 5)]\<rparr>) \<and>
   Serial_write port (Bytes hello) idle = (Returns 5, idle\<lparr>trace := [Write 3 hello (Inr 5)]\<rparr>)"
proof -
  have h: "is_open port" by (simp add: port_def)
  have e: "fst (Serial_write port (Bytes hello) write_aborted) = Returns 2"
    by (simp add: write_aborted_def write_loop.simps eval_defs)
  then have e': "Serial_write port (Bytes hello) write_aborted
     = (Returns 2, snd (Serial_write port (Bytes hello) write_aborted))"
    by (metis prod.collapse)
  have len: "length hello = 5" "hello \<noteq> []" by (simp_all add: hello_def)
  have o: "os_write idle (fd port) hello
             = (Inr (length hello), idle\<lparr>trace := [Write 3 hello (Inr 5)]\<rparr>)"
    by (simp add: eval_defs)
  from write_returns_count [OF h, THEN conjunct1, rule_format, OF e']
       write_returns_count [OF h, THEN conjunct2, rule_format, OF conjI [OF len(2) o]]
       h e' len o
  show ?thesis by simp
qed

section \<open>Non-blocking writes\<close>

lemma write_loop_nb:
  "write_loop s t poll total_len tx_remaining d w = (out, w') \<Longrightarrow> is_non_blocking t \<Longrightarrow>
   0 < tx_remaining \<Longrightarrow>
     (case out of
        Returns c \<Rightarrow>
          \<exists>fails n. trace w' = trace w @ fails @ [Write (fd s) d (Inr n)] \<and>
            list_all (transient_failure (fd s) d) fails \<and> c = int n \<and> n \<le> length d
      | Raises e \<Rightarrow>
          \<exists>fails n msg. trace w' = trace w @ fails @ [Write (fd s) d (Inl (OSError n msg))] \<and>
            list_all (transient_failure (fd s) d) fails \<and> n \<notin> transient \<and>
            e = SerialException (''write failed: '' @ msg)
      | Blocks \<Rightarrow> False)"
proof (induction s t poll total_len tx_remaining d w rule: write_loop.induct)
  case (1 s t poll total_len tx_remaining d w)
  note res = \<open>write_loop s t poll total_len tx_remaining d w = (out, w')\<close>
  note nb = \<open>is_non_blocking t\<close> and pos = \<open>0 < tx_remaining\<close>
  obtain r w1 where ow: "os_write w (fd s) d = (r, w1)"
    by (cases "os_write w (fd s) d")
  note owr = os_write_result [OF ow]
  show ?case
  proof (cases r)
    case (Inr n)
    with ow nb have "write_try s t poll tx_remaining d w
                       = (Return (int n), tx_remaining - int n, drop n d, w1)"
      by (simp add: write_try_def Let_def)
    with res pos have "out = Returns (int n)" "w' = w1"
      by (simp_all add: write_loop.simps except_OSError_def)
    with owr Inr show ?thesis by (auto intro!: exI [of _ "[]"])
  next
    case (Inl x)
    with owr obtain e msg where x: "x = OSError e msg" by auto
    with ow Inl have ow': "os_write w (fd s) d = (Inl (OSError e msg), w1)" by simp
    have tr1: "trace w1 = trace w @ [Write (fd s) d (Inl (OSError e msg))]"
      using owr Inl x by simp
    note step = write_loop_failed_attempt [OF pos ow', of t poll total_len]
    show ?thesis
    proof (cases "e \<in> transient")
      case False
      with step res have "out = Raises (SerialException (''write failed: '' @ msg))" "w' = w1"
        by (simp_all add: transient_def)
      with tr1 False show ?thesis by (auto intro!: exI [of _ "[]"])
    next
      case True
      with step res nb have rec: "write_loop s t poll total_len tx_remaining d w1 = (out, w')"
        by (simp add: transient_def)
      have wt: "write_try s t poll tx_remaining d w = (Exc (OSError e msg), tx_remaining, d, w1)"
        using ow' by (simp add: write_try_def)
      have nx: "except_OSError (Exc (OSError e msg)) = Next"
        using True by (simp add: except_OSError_def transient_def)
      have ne: "\<not> (\<not> is_non_blocking t \<and> expired t w1)" using nb by simp
      note IH = "1.IH" [OF pos wt [symmetric] refl refl nx ne rec nb pos]
      have tf: "transient_failure (fd s) d (Write (fd s) d (Inl (OSError e msg)))"
        using True by simp
      show ?thesis
      proof (cases out)
        case (Returns c)
        with IH obtain fails n where
          "trace w' = trace w1 @ fails @ [Write (fd s) d (Inr n)]"
          "list_all (transient_failure (fd s) d) fails" "c = int n" "n \<le> length d"
          by auto
        with tr1 tf Returns show ?thesis
          by (auto intro!: exI [of _ "Write (fd s) d (Inl (OSError e msg)) # fails"])
      next
        case (Raises ex)
        with IH obtain fails n m where
          "trace w' = trace w1 @ fails @ [Write (fd s) d (Inl (OSError n m))]"
          "list_all (transient_failure (fd s) d) fails" "n \<notin> transient"
          "ex = SerialException (''write failed: '' @ m)"
          by auto
        with tr1 tf Raises show ?thesis
          by (auto intro!: exI [of _ "Write (fd s) d (Inl (OSError e msg)) # fails"])
      next
        case Blocks
        with IH show ?thesis by simp
      qed
    qed
  qed
qed

text \<open>
  Claim C5, as the code has it. With a write timeout of zero, \<^verbatim>\<open>write\<close> makes no
  readiness wait and returns right after the first \<^verbatim>\<open>os.write\<close> attempt that the device
  answers with a count, with that count (possibly less than \<^verbatim>\<open>len(data)\<close>); a shortfall
  raises nothing. The attempts before it are those that failed with a transient error:
  each is repeated at once. An attempt that fails with another error raises the
  write-failed error. Empty data returns 0 without any attempt.
\<close>

theorem non_blocking_write:
  assumes "is_open s" and "write_timeout s = Some 0"
  shows "case Serial_write s (Bytes d) w of
           (Returns c, w') \<Rightarrow>
             (d = [] \<and> c = 0 \<and> w' = w) \<or>
             (\<exists>fails n. trace w' = trace w @ fails @ [Write (fd s) d (Inr n)] \<and>
                list_all (transient_failure (fd s) d) fails \<and> c = int n \<and> n \<le> length d)
         | (Raises e, w') \<Rightarrow>
             \<exists>fails n msg. trace w' = trace w @ fails @ [Write (fd s) d (Inl (OSError n msg))] \<and>
               list_all (transient_failure (fd s) d) fails \<and> n \<notin> transient \<and>
               e = SerialException (''write failed: '' @ msg)
         | (Blocks, w') \<Rightarrow> False"
proof -
  let ?t = "Timeout w (write_timeout s)"
  have eq: "Serial_write s (Bytes d) w
              = write_loop s ?t (write_poll s) (int (length d)) (int (length d)) d w"
    using assms(1) by (simp add: Serial_write_def to_bytes_def Let_def)
  have nb: "is_non_blocking ?t" using assms(2) by (simp add: Timeout_def)
  show ?thesis
  proof (cases "d = []")
    case True
    then show ?thesis unfolding eq by (simp add: write_loop.simps)
  next
    case False
    then have pos: "0 < int (length d)" by simp
    obtain out w' where res:
      "write_loop s ?t (write_poll s) (int (length d)) (int (length d)) d w = (out, w')"
      by (cases "write_loop s ?t (write_poll s) (int (length d)) (int (length d)) d w")
    from write_loop_nb [OF res nb pos] show ?thesis
      unfolding eq res by (cases out) auto
  qed
qed

theorem non_blocking_write_witness:
  "is_open (port\<lparr>write_timeout := Some 0\<rparr>) \<and>
   write_timeout (port\<lparr>write_timeout := Some 0\<rparr>) = Some 0 \<and>
   fst (Serial_write (port\<lparr>write_timeout := Some 0\<rparr>) (Bytes hello)
          (idle\<lparr>write_script := [(0, Inr 2)]\<rparr>)) = Returns 2 \<and>
   (case Serial_write (port\<lparr>write_timeout := Some 0\<rparr>) (Bytes hello)
           (idle\<lparr>write_script := [(0, Inr 2)]\<rparr>) of
      (Returns c, w') \<Rightarrow>
        (hello = [] \<and> c = 0 \<and> w' = idle\<lparr>write_script := [(0, Inr 2)]\<rparr>) \<or>
        (\<exists>fails n. trace w' = trace (idle\<lparr>write_script := [(0, Inr 2)]\<rparr>) @ fails @
              [Write (fd (port\<lparr>write_timeout := Some 0\<rparr>)) hello (Inr n)] \<and>
           list_all (transient_failure (fd (port\<lparr>write_timeout := Some 0\<rparr>)) hello) fails \<and>
           c = int n \<and> n \<le> length hello)
    | (Raises e, w') \<Rightarrow>
        \<exists>fails n msg. trace w' = trace (idle\<lparr>write_script := [(0, Inr 2)]\<rparr>) @ fails @
              [Write (fd (port\<lparr>write_timeout := Some 0\<rparr>)) hello (Inl (OSError n msg))] \<and>
          list_all (transient_failure (fd (port\<lparr>write_timeout := Some 0\<rparr>)) hello) fails \<and>
          n \<notin> transient \<and> e = SerialException (''write failed: '' @ msg)
    | (Blocks, w') \<Rightarrow> False)"
proof -
  have h1: "is_open (port\<lparr>write_timeout := Some 0\<rparr>)"
    and h2: "write_timeout (port\<lparr>write_timeout := Some 0\<rparr>) = Some 0"
    by (simp_all add: port_def)
  have e: "fst (Serial_write (port\<lparr>write_timeout := Some 0\<rparr>) (Bytes hello)
          (idle\<lparr>write_script := [(0, Inr 2)]\<rparr>)) = Returns 2"
    by (simp add: write_loop.simps eval_defs)
  from non_blocking_write [OF h1 h2, of hello "idle\<lparr>write_script := [(0, Inr 2)]\<rparr>"] h1 h2 e
  show ?thesis by blast
qed

text \<open>
  Claim C5, as stated, fails when the first attempt meets a busy device: \<^verbatim>\<open>EAGAIN\<close> is
  passed over by the handler, the deadline check is skipped in non-blocking mode, and the
  loop writes again. Two attempts are made.
\<close>

theorem non_blocking_retry_counterexample:
  "fst (Serial_write (port\<lparr>write_timeout := Some 0\<rparr>) (Bytes hello) busy_once) = Returns 2 \<and>
   trace (snd (Serial_write (port\<lparr>write_timeout := Some 0\<rparr>) (Bytes hello) busy_once))
     = [Write 3 hello (Inl (OSError 11 ''[Errno 11] Resource temporarily unavailable'')),
        Write 3 hello (Inr 2)] \<and>
   attempts (trace (snd (Serial_write (port\<lparr>write_timeout := Some 0\<rparr>) (Bytes hello) busy_once)))
     = 2"
  by (simp add: busy_once_def write_loop.simps eval_defs)

section \<open>A port that is not open\<close>

text \<open>
  Claim C6. If the port is not open, both \<^verbatim>\<open>read\<close> and \<^verbatim>\<open>write\<close> raise
  \<^verbatim>\<open>PortNotOpenError\<close> at entry, whatever the argument (a \<^verbatim>\<open>write\<close> argument that
  \<^verbatim>\<open>to_bytes\<close> would refuse included), and the operating system is left as it was: no
  system call on the device descriptor or on the abort pipes is made.
\<close>

theorem not_open_raises:
  "\<not> is_open s \<Longrightarrow>
     Serial_read s sz w = (Raises PortNotOpenError, w) \<and>
     Serial_write s data w = (Raises PortNotOpenError, w)"
  by (simp add: Serial_read_def Serial_write_def)

theorem not_open_raises_witness:
  "\<not> is_open (port\<lparr>is_open := False\<rparr>) \<and>
   Serial_read (port\<lparr>is_open := False\<rparr>) 4 idle = (Raises PortNotOpenError, idle) \<and>
   Serial_write (port\<lparr>is_open := False\<rparr>) (Unicode ''hello'') idle
     = (Raises PortNotOpenError, idle)"
  using not_open_raises [of "port\<lparr>is_open := False\<rparr>" 4 idle "Unicode ''hello''"]
  by (simp add: port_def)

section \<open>Reading nothing\<close>

text \<open>
  Claim C10. On an open port \<^verbatim>\<open>read(0)\<close> returns the empty byte string at once: the
  operating system is left as it was (no readiness wait, no read of the device), whatever
  the configured timeout and whatever the device has to offer.
\<close>

theorem read_zero:
  "is_open s \<Longrightarrow> Serial_read s 0 w = (Returns [], w)"
  by (simp add: Serial_read_def Let_def read_loop.simps)

theorem read_zero_witness:
  "is_open port \<and> Serial_read port 0 idle = (Returns [], idle)"
  using read_zero [of port idle] by (simp add: port_def)

end
